theory Spec2Isabelle
  imports Complex_Main
begin

section \<open>Rooftop segmentation: the visualisation script\<close>

text \<open>
  A shallow embedding of \<^verbatim>\<open>src/visualize_results.py\<close>. The script parses
  annotation files with \<^verbatim>\<open>json.load\<close>, draws their polygons with PIL, counts the
  shapes of every tile and shows a sample of the tiles in a 2 x 3 grid.

  Python values are dynamically typed, so the parsed content of a file is any JSON value
  and every operation the script applies to it can raise. Exceptions are values of
  \<open>py_error\<close>; a computation that can raise returns \<open>py_error + 'a\<close> with \<open>Inl\<close> the
  exception. Every exception listed here derives from Python's \<^verbatim>\<open>Exception\<close>, which is
  what the script's \<^verbatim>\<open>except Exception\<close> clauses catch.
\<close>

subsection \<open>Parsed JSON and the Python operations the script applies to it\<close>

datatype py_error =
    KeyError | TypeError | ValueError | AttributeError | OverflowError | IndexError
  | OSError | JSONDecodeError

text \<open>
  A Python float is a double: a rational number, an infinity or a NaN. The finite ones
  are kept as the rational they denote, which is all \<^verbatim>\<open>int(x)\<close> looks at.
\<close>

datatype pyfloat = Finite rat | PosInf | NegInf | NaN

text \<open>
  What \<^verbatim>\<open>json.load\<close> returns: \<^verbatim>\<open>None\<close>, a bool, an int, a float, a str, a list or a
  dict with str keys. A dict is an association list in which a key occurs once, looked
  up with \<open>map_of\<close>. A str is a \<open>string\<close>, one \<open>char\<close> per code point (code points below
  256).
\<close>

datatype json =
    JNull | JBool bool | JInt int | JFloat pyfloat | JStr string
  | JArr "json list" | JObj "(string \<times> json) list"

text \<open>\<^verbatim>\<open>d.get(key, default)\<close>: only a dict has the method.\<close>

definition dict_get :: "json \<Rightarrow> string \<Rightarrow> json \<Rightarrow> py_error + json" where
  "dict_get d key dflt =
     (case d of
        JObj kvs \<Rightarrow> (case map_of kvs key of Some v \<Rightarrow> Inr v | None \<Rightarrow> Inr dflt)
      | _ \<Rightarrow> Inl AttributeError)"

text \<open>\<^verbatim>\<open>d[key]\<close> with a str key: KeyError on a dict without the key, TypeError on
  anything that is not a dict (a list or a str wants an integer index, the rest cannot
  be subscripted).\<close>

definition subscript :: "json \<Rightarrow> string \<Rightarrow> py_error + json" where
  "subscript d key =
     (case d of
        JObj kvs \<Rightarrow> (case map_of kvs key of Some v \<Rightarrow> Inr v | None \<Rightarrow> Inl KeyError)
      | _ \<Rightarrow> Inl TypeError)"

text \<open>Iteration (\<^verbatim>\<open>for ... in v\<close>, unpacking): a list gives its elements, a str its
  characters as one-character strs, a dict its keys; nothing else is iterable.\<close>

definition py_iter :: "json \<Rightarrow> py_error + json list" where
  "py_iter v =
     (case v of
        JArr xs \<Rightarrow> Inr xs
      | JStr s \<Rightarrow> Inr (map (\<lambda>c. JStr [c]) s)
      | JObj kvs \<Rightarrow> Inr (map (\<lambda>kv. JStr (fst kv)) kvs)
      | _ \<Rightarrow> Inl TypeError)"

text \<open>\<^verbatim>\<open>len(v)\<close>.\<close>

definition py_len :: "json \<Rightarrow> py_error + nat" where
  "py_len v =
     (case v of
        JArr xs \<Rightarrow> Inr (length xs)
      | JStr s \<Rightarrow> Inr (length s)
      | JObj kvs \<Rightarrow> Inr (length kvs)
      | _ \<Rightarrow> Inl TypeError)"

text \<open>
  \<^verbatim>\<open>int(s)\<close> for a str, base 10: optional surrounding whitespace, an optional sign, then
  digits, with single underscores allowed between digits. The whitespace \<^verbatim>\<open>int\<close> skips is
  the six ASCII characters tab, line feed, vertical tab, form feed, carriage return and
  space, and of the other code points below 256 the two Unicode spaces 0x85 and 0xA0;
  the separators 0x1C to 0x1F are not skipped. A str with more than 4300 digits is
  refused (the interpreter's default limit on the conversion).
\<close>

definition is_space :: "char \<Rightarrow> bool" where
  "is_space c =
     (c \<in> set [CHR 0x09, CHR 0x0A, CHR 0x0B, CHR 0x0C, CHR 0x0D, CHR 0x20, CHR 0x85,
                CHR 0xA0])"

definition is_digit :: "char \<Rightarrow> bool" where
  "is_digit c = (c \<in> set ''0123456789'')"

definition digit_val :: "char \<Rightarrow> int" where
  "digit_val c = int (of_char c) - 48"

fun parse_digits :: "int \<Rightarrow> string \<Rightarrow> int option" where
  "parse_digits acc [] = Some acc"
| "parse_digits acc [c] =
     (if is_digit c then Some (10 * acc + digit_val c) else None)"
| "parse_digits acc (c # d # ds) =
     (if is_digit c then parse_digits (10 * acc + digit_val c) (d # ds)
      else if c = CHR ''_'' \<and> is_digit d then parse_digits (10 * acc + digit_val d) ds
      else None)"

definition strip :: "string \<Rightarrow> string" where
  "strip s = rev (dropWhile is_space (rev (dropWhile is_space s)))"

definition parse_int :: "string \<Rightarrow> int option" where
  "parse_int s =
     (let t = strip s;
          neg = (t \<noteq> [] \<and> hd t = CHR ''-'');
          u = (if t \<noteq> [] \<and> (hd t = CHR ''-'' \<or> hd t = CHR ''+'') then tl t else t)
      in case u of
           [] \<Rightarrow> None
         | c # cs \<Rightarrow>
             if is_digit c \<and> length (filter is_digit u) \<le> 4300
             then map_option (\<lambda>v. if neg then - v else v) (parse_digits (digit_val c) cs)
             else None)"

text \<open>\<^verbatim>\<open>int(x)\<close>: an int is itself, a bool is 0 or 1, a float is truncated towards zero
  (ValueError on NaN, OverflowError on an infinity), a str is parsed, anything else is a
  TypeError.\<close>

definition truncate :: "rat \<Rightarrow> int" where
  "truncate r = (if 0 \<le> r then \<lfloor>r\<rfloor> else \<lceil>r\<rceil>)"

definition py_int :: "json \<Rightarrow> py_error + int" where
  "py_int v =
     (case v of
        JInt n \<Rightarrow> Inr n
      | JBool b \<Rightarrow> Inr (if b then 1 else 0)
      | JFloat f \<Rightarrow>
          (case f of
             Finite r \<Rightarrow> Inr (truncate r)
           | NaN \<Rightarrow> Inl ValueError
           | _ \<Rightarrow> Inl OverflowError)
      | JStr s \<Rightarrow> (case parse_int s of Some n \<Rightarrow> Inr n | None \<Rightarrow> Inl ValueError)
      | _ \<Rightarrow> Inl TypeError)"

subsection \<open>The image and the drawing calls\<close>

text \<open>
  PIL is a library: an image is modelled by how it was made, that is its size, the colour
  \<^verbatim>\<open>Image.new\<close> filled it with, and the \<^verbatim>\<open>draw.polygon\<close> calls made on it since, in
  order. A call is only ever made with at least three integer points.

  The library converts every coordinate to a C double, and \<^verbatim>\<open>draw.polygon\<close> raises
  ValueError for a point with a coordinate that has none: an integer whose magnitude
  rounds to \<open>2 ^ 1024\<close> or more. Nothing is drawn by a call that raises.
\<close>

type_synonym rgb = "nat \<times> nat \<times> nat"

datatype draw_call = Polygon (pts: "(int \<times> int) list") (fill: rgb) (outline: rgb)

record image =
  im_size :: "nat \<times> nat"
  im_background :: rgb
  im_calls :: "draw_call list"

definition Image_new :: "nat \<times> nat \<Rightarrow> rgb \<Rightarrow> image" where
  "Image_new sz colour = \<lparr>im_size = sz, im_background = colour, im_calls = []\<rparr>"

definition fits_double :: "int \<Rightarrow> bool" where
  "fits_double c = (\<bar>c\<bar> < 2 ^ 1024 - 2 ^ 970)"

definition draw_polygon ::
  "(int \<times> int) list \<Rightarrow> rgb \<Rightarrow> rgb \<Rightarrow> image \<Rightarrow> py_error + image" where
  "draw_polygon points f outl img =
     (if list_all (\<lambda>p. fits_double (fst p) \<and> fits_double (snd p)) points
      then Inr (img\<lparr>im_calls := im_calls img @ [Polygon points f outl]\<rparr>)
      else Inl ValueError)"

text \<open>
  The colour of a pixel, given what the library paints: \<open>paint c p\<close> is the colour call
  \<open>c\<close> gives pixel \<open>p\<close>, or \<open>None\<close> where the call leaves the pixel alone. Later calls
  paint over earlier ones.
\<close>

definition pixel ::
  "(draw_call \<Rightarrow> int \<times> int \<Rightarrow> rgb option) \<Rightarrow> image \<Rightarrow> int \<times> int \<Rightarrow> rgb" where
  "pixel paint img p =
     fold (\<lambda>c colour. case paint c p of Some k \<Rightarrow> k | None \<Rightarrow> colour)
       (im_calls img) (im_background img)"

subsection \<open>The Rasterizer: \<^verbatim>\<open>create_mask_from_polygons\<close>\<close>

definition colors :: "rgb list" where
  "colors = [(255, 0, 0), (0, 255, 0), (0, 0, 255), (255, 255, 0), (255, 0, 255), (0, 255, 255)]"

text \<open>One element of \<^verbatim>\<open>[(int(x), int(y)) for x, y in shape['points']]\<close>: the element is
  unpacked into exactly two values (TypeError when it is not iterable, ValueError on any
  other number of values), then both are converted, \<open>x\<close> first.\<close>

definition int_pair :: "json \<Rightarrow> py_error + (int \<times> int)" where
  "int_pair e =
     (case py_iter e of
        Inl err \<Rightarrow> Inl err
      | Inr vs \<Rightarrow>
          (case vs of
             [x, y] \<Rightarrow>
               (case py_int x of
                  Inl err \<Rightarrow> Inl err
                | Inr a \<Rightarrow> (case py_int y of Inl err \<Rightarrow> Inl err | Inr b \<Rightarrow> Inr (a, b)))
           | _ \<Rightarrow> Inl ValueError))"

fun int_pairs :: "json list \<Rightarrow> py_error + (int \<times> int) list" where
  "int_pairs [] = Inr []"
| "int_pairs (e # es) =
     (case int_pair e of
        Inl err \<Rightarrow> Inl err
      | Inr p \<Rightarrow> (case int_pairs es of Inl err \<Rightarrow> Inl err | Inr ps \<Rightarrow> Inr (p # ps)))"

text \<open>The whole comprehension of line 32, the value of \<^verbatim>\<open>points\<close>.\<close>

definition shape_points :: "json \<Rightarrow> py_error + (int \<times> int) list" where
  "shape_points shape =
     (case subscript shape ''points'' of
        Inl err \<Rightarrow> Inl err
      | Inr pv \<Rightarrow> (case py_iter pv of Inl err \<Rightarrow> Inl err | Inr es \<Rightarrow> int_pairs es))"

text \<open>The body of the loop, for the shape at index \<open>i\<close>.\<close>

definition draw_shape :: "nat \<Rightarrow> json \<Rightarrow> image \<Rightarrow> py_error + image" where
  "draw_shape i shape img =
     (case subscript shape ''shape_type'' of
        Inl err \<Rightarrow> Inl err
      | Inr t \<Rightarrow>
          if t = JStr ''polygon'' then
            (case shape_points shape of
               Inl err \<Rightarrow> Inl err
             | Inr points \<Rightarrow>
                 (let color = colors ! (i mod length colors)
                  in if length points \<ge> 3
                     then draw_polygon points color (255, 255, 255) img
                     else Inr img))
          else Inr img)"

text \<open>\<^verbatim>\<open>for i, shape in enumerate(...)\<close>: the first exception ends the loop.\<close>

fun draw_shapes :: "nat \<Rightarrow> json list \<Rightarrow> image \<Rightarrow> py_error + image" where
  "draw_shapes i [] img = Inr img"
| "draw_shapes i (shape # rest) img =
     (case draw_shape i shape img of
        Inl err \<Rightarrow> Inl err
      | Inr img' \<Rightarrow> draw_shapes (Suc i) rest img')"

definition create_mask_from_polygons :: "json \<Rightarrow> nat \<times> nat \<Rightarrow> py_error + image" where
  "create_mask_from_polygons mask_data image_size =
     (let mask_image = Image_new image_size (0, 0, 0)
      in case dict_get mask_data ''shapes'' (JArr []) of
           Inl err \<Rightarrow> Inl err
         | Inr v \<Rightarrow>
             (case py_iter v of
                Inl err \<Rightarrow> Inl err
              | Inr shapes \<Rightarrow> draw_shapes 0 shapes mask_image))"

subsection \<open>Files: the Mask Loader and the Dataset Scanner\<close>

text \<open>
  A path is the list of its components. The file system is what the script reads from
  it: the names a directory holds (none for a directory that does not exist), and for
  every path the outcome of opening it and parsing it with \<^verbatim>\<open>json.load\<close>, an exception
  or the parsed value.
\<close>

type_synonym path = "string list"

record world =
  listdir :: "path \<Rightarrow> string list"
  read_json :: "path \<Rightarrow> py_error + json"

definition load_mask_data :: "world \<Rightarrow> path \<Rightarrow> py_error + json" where
  "load_mask_data w mask_file_path = read_json w mask_file_path"

text \<open>The pattern \<^verbatim>\<open>*.json\<close>: a name that ends in \<^verbatim>\<open>.json\<close>.\<close>

definition matches_json :: "string \<Rightarrow> bool" where
  "matches_json name = (5 \<le> length name \<and> drop (length name - 5) name = ''.json'')"

definition masks_path :: "path \<Rightarrow> path" where
  "masks_path data_dir = data_dir @ [''masks'', ''s1024_z19'', ''train'']"

definition glob_json :: "world \<Rightarrow> path \<Rightarrow> path list" where
  "glob_json w dir = map (\<lambda>name. dir @ [name]) (filter matches_json (listdir w dir))"

subsection \<open>The Stats Aggregator: \<^verbatim>\<open>analyze_dataset_stats\<close>\<close>

text \<open>The expression \<^verbatim>\<open>len(mask_data.get('shapes', []))\<close>, written out twice in the
  script (lines 76 and 105).\<close>

definition num_shapes :: "json \<Rightarrow> py_error + nat" where
  "num_shapes mask_data =
     (case dict_get mask_data ''shapes'' (JArr []) of
        Inl err \<Rightarrow> Inl err
      | Inr v \<Rightarrow> py_len v)"

text \<open>
  The body of the loop over the files, on the pair (\<^verbatim>\<open>total_buildings\<close>,
  \<^verbatim>\<open>buildings_per_tile\<close>). An exception anywhere in the \<^verbatim>\<open>try\<close> is caught and only
  printed; both variables are assigned after the last statement that can raise.
\<close>

definition stats_step :: "world \<Rightarrow> path \<Rightarrow> nat \<times> nat list \<Rightarrow> nat \<times> nat list" where
  "stats_step w mask_file acc =
     (case load_mask_data w mask_file of
        Inl err \<Rightarrow> acc
      | Inr mask_data \<Rightarrow>
          (case num_shapes mask_data of
             Inl err \<Rightarrow> acc
           | Inr num_buildings \<Rightarrow> (fst acc + num_buildings, snd acc @ [num_buildings])))"

fun stats_loop :: "world \<Rightarrow> path list \<Rightarrow> nat \<times> nat list \<Rightarrow> nat \<times> nat list" where
  "stats_loop w [] acc = acc"
| "stats_loop w (mask_file # rest) acc = stats_loop w rest (stats_step w mask_file acc)"

record stats =
  total_tiles :: nat
  total_buildings :: nat
  avg_buildings_per_tile :: rat
  max_buildings_per_tile :: nat
  min_buildings_per_tile :: nat

text \<open>\<^verbatim>\<open>np.mean\<close>, as the exact quotient (the rounding to a double is not modelled), and
  \<^verbatim>\<open>max\<close> and \<^verbatim>\<open>min\<close>; the script calls the three on a non-empty list only.\<close>

definition mean :: "nat list \<Rightarrow> rat" where
  "mean xs = of_nat (sum_list xs) / of_nat (length xs)"

definition analyze_dataset_stats :: "world \<Rightarrow> path \<Rightarrow> stats" where
  "analyze_dataset_stats w data_dir =
     (let mask_files = glob_json w (masks_path data_dir);
          acc = stats_loop w mask_files (0, []);
          buildings_per_tile = snd acc
      in \<lparr>total_tiles = length mask_files,
          total_buildings = fst acc,
          avg_buildings_per_tile =
            (if buildings_per_tile \<noteq> [] then mean buildings_per_tile else 0),
          max_buildings_per_tile =
            (case buildings_per_tile of [] \<Rightarrow> 0 | x # xs \<Rightarrow> fold max xs x),
          min_buildings_per_tile =
            (case buildings_per_tile of [] \<Rightarrow> 0 | x # xs \<Rightarrow> fold min xs x)\<rparr>)"

subsection \<open>The Sample Visualizer: \<^verbatim>\<open>visualize_sample_masks\<close>\<close>

text \<open>
  \<^verbatim>\<open>random.sample(population, k)\<close> is a library call. It raises ValueError when \<open>k\<close> is
  negative or larger than the population, and otherwise draws \<open>k\<close> times from a pool out
  of which every drawn element is taken. The random numbers are an explicit argument,
  the list \<open>draws\<close>; a draw is reduced modulo the size of the pool, and a missing draw
  counts as 0.
\<close>

fun sample_pool :: "nat list \<Rightarrow> 'a list \<Rightarrow> nat \<Rightarrow> 'a list" where
  "sample_pool draws pool 0 = []"
| "sample_pool draws [] (Suc k) = []"
| "sample_pool draws (p # ps) (Suc k) =
     (let j = (case draws of [] \<Rightarrow> 0 | d # _ \<Rightarrow> d) mod length (p # ps)
      in (p # ps) ! j # sample_pool (tl draws) (take j (p # ps) @ drop (Suc j) (p # ps)) k)"

definition random_sample :: "nat list \<Rightarrow> 'a list \<Rightarrow> int \<Rightarrow> py_error + 'a list" where
  "random_sample draws population k =
     (if k < 0 \<or> int (length population) < k then Inl ValueError
      else Inr (sample_pool draws population (nat k)))"

text \<open>
  The figure is the 2 x 3 grid of axes that \<^verbatim>\<open>plt.subplots(2, 3)\<close> returns, row by row.
  Of every cell the model keeps the image shown, the title, whether the axis is drawn
  and the texts written, in order. Indexing the grid outside 2 x 3 raises IndexError.
\<close>

record cell =
  cell_image :: "image option"
  cell_title :: string
  cell_axis_on :: bool
  cell_texts :: "string list"

type_synonym axes = "cell list"

definition subplots :: axes where
  "subplots =
     replicate 6 \<lparr>cell_image = None, cell_title = [], cell_axis_on = True, cell_texts = []\<rparr>"

definition axes_index :: "nat \<Rightarrow> nat \<Rightarrow> py_error + nat" where
  "axes_index row col = (if row < 2 \<and> col < 3 then Inr (row * 3 + col) else Inl IndexError)"

text \<open>\<^verbatim>\<open>mask_file.stem\<close> (the name up to its last dot, when that dot is neither the first
  nor the last character), \<^verbatim>\<open>.replace("_mask", "")\<close> and the decimal digits of a count
  in an f-string.\<close>

definition path_stem :: "string \<Rightarrow> string" where
  "path_stem name =
     (let after = length (takeWhile (\<lambda>c. c \<noteq> CHR ''.'') (rev name))
      in if after < length name \<and> 0 < after \<and> Suc after < length name
         then take (length name - Suc after) name
         else name)"

fun remove_mask :: "string \<Rightarrow> string" where
  "remove_mask [] = []"
| "remove_mask (c # cs) =
     (if take 5 (c # cs) = ''_mask'' then remove_mask (drop 4 cs) else c # remove_mask cs)"

fun str_nat :: "nat \<Rightarrow> string" where
  "str_nat n =
     (if n < 10 then [char_of (48 + n)] else str_nat (n div 10) @ [char_of (48 + n mod 10)])"

declare str_nat.simps [simp del]

text \<open>
  The \<^verbatim>\<open>try\<close> block for one sampled file. It returns the grid as the statements that ran
  have left it, and the exception that ended it, if any.
\<close>

definition try_show :: "world \<Rightarrow> nat \<Rightarrow> nat \<Rightarrow> path \<Rightarrow> axes \<Rightarrow> axes \<times> py_error option" where
  "try_show w row col mask_file ax =
     (case load_mask_data w mask_file of
        Inl err \<Rightarrow> (ax, Some err)
      | Inr mask_data \<Rightarrow>
          (case create_mask_from_polygons mask_data (1024, 1024) of
             Inl err \<Rightarrow> (ax, Some err)
           | Inr mask_image \<Rightarrow>
               (case axes_index row col of
                  Inl err \<Rightarrow> (ax, Some err)
                | Inr k \<Rightarrow>
                    (let ax1 = ax[k := (ax ! k)\<lparr>cell_image := Some mask_image\<rparr>];
                         ax2 = ax1[k := (ax1 ! k)
                                 \<lparr>cell_title :=
                                    ''Tile: '' @ remove_mask (path_stem (last mask_file))\<rparr>];
                         ax3 = ax2[k := (ax2 ! k)\<lparr>cell_axis_on := False\<rparr>]
                     in case num_shapes mask_data of
                          Inl err \<Rightarrow> (ax3, Some err)
                        | Inr num_buildings \<Rightarrow>
                            (ax3[k := (ax3 ! k)
                                   \<lparr>cell_texts := cell_texts (ax3 ! k)
                                      @ [''Buildings: '' @ str_nat num_buildings]\<rparr>],
                             None)))))"

text \<open>The body of the loop over the sample: the \<^verbatim>\<open>try\<close> block and its handler, which
  indexes the grid once more and so can raise itself.\<close>

definition show_sample :: "world \<Rightarrow> nat \<Rightarrow> path \<Rightarrow> axes \<Rightarrow> py_error + axes" where
  "show_sample w i mask_file ax =
     (let row = i div 3; col = i mod 3
      in case try_show w row col mask_file ax of
           (ax', None) \<Rightarrow> Inr ax'
         | (ax', Some e) \<Rightarrow>
             (case axes_index row col of
                Inl err \<Rightarrow> Inl err
              | Inr k \<Rightarrow>
                  (let ax1 = ax'[k := (ax' ! k)
                               \<lparr>cell_texts := cell_texts (ax' ! k)
                                  @ [''Error loading'' @ [CHR 0x0A] @ last mask_file]\<rparr>]
                   in Inr (ax1[k := (ax1 ! k)\<lparr>cell_axis_on := False\<rparr>]))))"

fun show_samples :: "world \<Rightarrow> nat \<Rightarrow> path list \<Rightarrow> axes \<Rightarrow> py_error + axes" where
  "show_samples w i [] ax = Inr ax"
| "show_samples w i (mask_file # rest) ax =
     (case show_sample w i mask_file ax of
        Inl err \<Rightarrow> Inl err
      | Inr ax' \<Rightarrow> show_samples w (Suc i) rest ax')"

text \<open>The value of \<^verbatim>\<open>sample_files\<close> (line 53).\<close>

definition sample_files :: "nat list \<Rightarrow> path list \<Rightarrow> int \<Rightarrow> py_error + path list" where
  "sample_files draws mask_files num_samples =
     random_sample draws mask_files (min num_samples (int (length mask_files)))"

text \<open>
  The function returns \<^verbatim>\<open>None\<close> from the bare \<^verbatim>\<open>return\<close> and the number of files found
  at its end; the result also holds the figure that was shown, if one was made.
\<close>

record vis_result =
  vis_figure :: "axes option"
  vis_return :: "nat option"

definition visualize_sample_masks ::
  "world \<Rightarrow> nat list \<Rightarrow> path \<Rightarrow> int \<Rightarrow> py_error + vis_result" where
  "visualize_sample_masks w draws data_dir num_samples =
     (let mask_files = glob_json w (masks_path data_dir)
      in if mask_files = [] then Inr \<lparr>vis_figure = None, vis_return = None\<rparr>
         else
           (case sample_files draws mask_files num_samples of
              Inl err \<Rightarrow> Inl err
            | Inr files \<Rightarrow>
                (case show_samples w 0 files subplots of
                   Inl err \<Rightarrow> Inl err
                 | Inr ax \<Rightarrow>
                     Inr \<lparr>vis_figure = Some ax, vis_return = Some (length mask_files)\<rparr>)))"

subsection \<open>Example data\<close>

text \<open>A file system whose only directory is \<^verbatim>\<open>data/masks/s1024_z19/train\<close>, holding the
  given files, each with the outcome of loading it; and some records and file systems
  the theorems below are run on.\<close>

definition train_dir :: path where
  "train_dir = [''data'', ''masks'', ''s1024_z19'', ''train'']"

definition mk_world :: "(string \<times> (py_error + json)) list \<Rightarrow> world" where
  "mk_world files =
     \<lparr>listdir = (\<lambda>dir. if dir = train_dir then map fst files else []),
      read_json = (\<lambda>p. if p \<noteq> [] \<and> butlast p = train_dir
                        then (case map_of files (last p) of Some r \<Rightarrow> r | None \<Rightarrow> Inl OSError)
                        else Inl OSError)\<rparr>"

definition triangle :: json where
  "triangle = JObj [(''shape_type'', JStr ''polygon''),
     (''points'', JArr [JArr [JInt 0, JInt 0], JArr [JInt 4, JInt 0], JArr [JInt 2, JInt 3]])]"

definition circle :: json where
  "circle = JObj [(''shape_type'', JStr ''circle''), (''points'', JArr [])]"

definition segment :: json where
  "segment = JObj [(''shape_type'', JStr ''polygon''),
     (''points'', JArr [JArr [JInt 0, JInt 0], JArr [JInt 4, JInt 4]])]"

definition tile_a :: json where
  "tile_a = JObj [(''shapes'', JArr [triangle, circle, segment])]"

definition seven_polygons :: json where
  "seven_polygons = JObj [(''shapes'',
     JArr [triangle, triangle, triangle, triangle, triangle, triangle, triangle])]"

definition circle_then_triangle :: json where
  "circle_then_triangle = JObj [(''shapes'', JArr [circle, triangle])]"

definition world_corrupt :: world where
  "world_corrupt = mk_world [(''a_mask.json'', Inr tile_a), (''bad.json'', Inl JSONDecodeError),
      (''c_mask.json'', Inr (JObj []))]"

definition world_clean :: world where
  "world_clean = mk_world [(''a_mask.json'', Inr tile_a), (''c_mask.json'', Inr (JObj []))]"

definition world_only_corrupt :: world where
  "world_only_corrupt = mk_world [(''bad.json'', Inl JSONDecodeError)]"

definition world_no_match :: world where
  "world_no_match = mk_world [(''notes.txt'', Inl JSONDecodeError)]"

section \<open>Properties\<close>

subsection \<open>The Rasterizer\<close>

lemma length_colors: "length colors = 6"
  by (simp add: colors_def)

text \<open>What the loop body does to the canvas when it returns: it adds the one call of a
  polygon shape with at least three points, filled by the index, and nothing else.\<close>

lemma draw_shape_cases:
  assumes "draw_shape i shape img = Inr img'"
  shows "\<exists>d. (\<forall>ps. d = Some ps \<longleftrightarrow>
                 subscript shape ''shape_type'' = Inr (JStr ''polygon'') \<and>
                 shape_points shape = Inr ps \<and> 3 \<le> length ps) \<and>
             img' = img\<lparr>im_calls := im_calls img @
               (case d of None \<Rightarrow> []
                | Some ps \<Rightarrow> [Polygon ps (colors ! (i mod 6)) (255, 255, 255)])\<rparr>"
proof (cases "subscript shape ''shape_type'' = Inr (JStr ''polygon'')")
  case False
  with assms have "img' = img"
    by (auto simp: draw_shape_def split: sum.splits if_splits)
  with False show ?thesis by (intro exI [of _ None]) simp
next
  case True
  with assms obtain ps where ps: "shape_points shape = Inr ps"
    and run: "(if 3 \<le> length ps
               then draw_polygon ps (colors ! (i mod 6)) (255, 255, 255) img
               else Inr img) = Inr img'"
    by (auto simp: draw_shape_def Let_def length_colors split: sum.splits)
  show ?thesis
  proof (cases "3 \<le> length ps")
    case False
    with run have "img' = img" by simp
    with ps False show ?thesis by (intro exI [of _ None]) auto
  next
    case long: True
    with run have "img' = img\<lparr>im_calls := im_calls img @
        [Polygon ps (colors ! (i mod 6)) (255, 255, 255)]\<rparr>"
      by (simp add: draw_polygon_def split: if_splits)
    with True ps long show ?thesis by (intro exI [of _ "Some ps"]) auto
  qed
qed

lemma draw_shapes_calls:
  "draw_shapes i shapes img = Inr img' \<Longrightarrow>
     \<exists>drawn.
        list_all2 (\<lambda>shape d. \<forall>ps. d = Some ps \<longleftrightarrow>
                     subscript shape ''shape_type'' = Inr (JStr ''polygon'') \<and>
                     shape_points shape = Inr ps \<and> 3 \<le> length ps) shapes drawn \<and>
        img' = img\<lparr>im_calls := im_calls img @
          concat (map (\<lambda>(k, d). case d of None \<Rightarrow> []
                     | Some ps \<Rightarrow> [Polygon ps (colors ! (k mod 6)) (255, 255, 255)])
                   (enumerate i drawn))\<rparr>"
proof (induction shapes arbitrary: i img)
  case Nil
  then show ?case by simp
next
  case (Cons shape rest)
  from Cons.prems obtain mid where
    step: "draw_shape i shape img = Inr mid" and
    tail: "draw_shapes (Suc i) rest mid = Inr img'"
    by (auto split: sum.splits)
  from draw_shape_cases [OF step] obtain d where
    d: "\<forall>ps. d = Some ps \<longleftrightarrow>
          subscript shape ''shape_type'' = Inr (JStr ''polygon'') \<and>
          shape_points shape = Inr ps \<and> 3 \<le> length ps" and
    mid: "mid = img\<lparr>im_calls := im_calls img @
               (case d of None \<Rightarrow> []
                | Some ps \<Rightarrow> [Polygon ps (colors ! (i mod 6)) (255, 255, 255)])\<rparr>"
    by blast
  from Cons.IH [OF tail] obtain drawn where
    rel: "list_all2 (\<lambda>shape d. \<forall>ps. d = Some ps \<longleftrightarrow>
                     subscript shape ''shape_type'' = Inr (JStr ''polygon'') \<and>
                     shape_points shape = Inr ps \<and> 3 \<le> length ps) rest drawn" and
    img': "img' = mid\<lparr>im_calls := im_calls mid @
          concat (map (\<lambda>(k, d). case d of None \<Rightarrow> []
                     | Some ps \<Rightarrow> [Polygon ps (colors ! (k mod 6)) (255, 255, 255)])
                   (enumerate (Suc i) drawn))\<rparr>"
    by blast
  from d rel have "list_all2 (\<lambda>shape d. \<forall>ps. d = Some ps \<longleftrightarrow>
                     subscript shape ''shape_type'' = Inr (JStr ''polygon'') \<and>
                     shape_points shape = Inr ps \<and> 3 \<le> length ps) (shape # rest) (d # drawn)"
    by simp
  moreover from mid img' have "img' = img\<lparr>im_calls := im_calls img @
          concat (map (\<lambda>(k, d). case d of None \<Rightarrow> []
                     | Some ps \<Rightarrow> [Polygon ps (colors ! (k mod 6)) (255, 255, 255)])
                   (enumerate i (d # drawn)))\<rparr>"
    by simp
  ultimately show ?case by blast
qed


lemma length_int_pairs: "int_pairs es = Inr ps \<Longrightarrow> length ps = length es"
  by (induction es arbitrary: ps) (auto split: sum.splits)

lemma triangle_points: "shape_points triangle = Inr [(0, 0), (4, 0), (2, 3)]"
  by (simp add: shape_points_def triangle_def subscript_def py_iter_def int_pair_def py_int_def)

lemma triangle_type: "subscript triangle ''shape_type'' = Inr (JStr ''polygon'')"
  by (simp add: triangle_def subscript_def)

lemma circle_type: "subscript circle ''shape_type'' = Inr (JStr ''circle'')"
  by (simp add: circle_def subscript_def)

lemma draw_triangle:
  "draw_shape i triangle img =
     Inr (img\<lparr>im_calls := im_calls img @
            [Polygon [(0, 0), (4, 0), (2, 3)] (colors ! (i mod 6)) (255, 255, 255)]\<rparr>)"
  by (simp add: draw_shape_def triangle_type triangle_points length_colors draw_polygon_def
      fits_double_def)

lemma draw_circle: "draw_shape i circle img = Inr img"
  by (simp add: draw_shape_def circle_type)

lemma draw_segment: "draw_shape i segment img = Inr img"
  by (simp add: draw_shape_def shape_points_def segment_def subscript_def py_iter_def
      int_pair_def py_int_def)

text \<open>
  C3. The shapes are numbered from 0 in the order of the sequence, skipped shapes
  included. The shape at index \<open>i\<close> makes a \<^verbatim>\<open>draw.polygon\<close> call exactly when its
  \<^verbatim>\<open>shape_type\<close> is \<^verbatim>\<open>polygon\<close> and its points are at least three, and the fill colour
  of that call is \<open>colors ! (i mod 6)\<close>: the calls on the returned image are, shape by
  shape and in order, exactly those. In particular the call of every drawn shape is on the
  image with the colour of the shape's own index.
\<close>

theorem fill_colour_by_index:
  assumes "dict_get mask_data ''shapes'' (JArr []) = Inr v"
    and "py_iter v = Inr shapes"
    and "create_mask_from_polygons mask_data image_size = Inr img"
  shows "(\<exists>drawn. length drawn = length shapes \<and>
            (\<forall>i<length shapes. \<forall>ps. drawn ! i = Some ps \<longleftrightarrow>
                subscript (shapes ! i) ''shape_type'' = Inr (JStr ''polygon'') \<and>
                shape_points (shapes ! i) = Inr ps \<and> 3 \<le> length ps) \<and>
            im_calls img =
              concat (map (\<lambda>(i, d). case d of None \<Rightarrow> []
                         | Some ps \<Rightarrow> [Polygon ps (colors ! (i mod 6)) (255, 255, 255)])
                       (enumerate 0 drawn))) \<and>
         (\<forall>i<length shapes. \<forall>ps.
            subscript (shapes ! i) ''shape_type'' = Inr (JStr ''polygon'') \<and>
            shape_points (shapes ! i) = Inr ps \<and> 3 \<le> length ps \<longrightarrow>
            Polygon ps (colors ! (i mod 6)) (255, 255, 255) \<in> set (im_calls img))"
proof -
  from assms have "draw_shapes 0 shapes (Image_new image_size (0, 0, 0)) = Inr img"
    by (simp add: create_mask_from_polygons_def)
  from draw_shapes_calls [OF this] obtain drawn where
    rel: "list_all2 (\<lambda>shape d. \<forall>ps. d = Some ps \<longleftrightarrow>
                     subscript shape ''shape_type'' = Inr (JStr ''polygon'') \<and>
                     shape_points shape = Inr ps \<and> 3 \<le> length ps) shapes drawn" and
    calls: "im_calls img =
          concat (map (\<lambda>(k, d). case d of None \<Rightarrow> []
                     | Some ps \<Rightarrow> [Polygon ps (colors ! (k mod 6)) (255, 255, 255)])
                   (enumerate 0 drawn))"
    by (auto simp: Image_new_def)
  from rel have len: "length drawn = length shapes"
    by (simp add: list_all2_lengthD)
  from rel have tie: "\<forall>i<length shapes. \<forall>ps. drawn ! i = Some ps \<longleftrightarrow>
                subscript (shapes ! i) ''shape_type'' = Inr (JStr ''polygon'') \<and>
                shape_points (shapes ! i) = Inr ps \<and> 3 \<le> length ps"
    by (simp add: list_all2_conv_all_nth)
  have "Polygon ps (colors ! (i mod 6)) (255, 255, 255) \<in> set (im_calls img)"
    if "i < length shapes"
      and "subscript (shapes ! i) ''shape_type'' = Inr (JStr ''polygon'') \<and>
           shape_points (shapes ! i) = Inr ps \<and> 3 \<le> length ps"
    for i ps
  proof -
    from that tie have "drawn ! i = Some ps" by blast
    with that(1) len have "(i, Some ps) \<in> set (enumerate 0 drawn)"
      by (simp add: in_set_enumerate_eq)
    then show ?thesis unfolding calls by force
  qed
  with len tie calls show ?thesis by blast
qed

text \<open>A circle followed by a triangle: the one call made is the triangle's, filled with
  the colour of index 1, not with the first colour. And a record of seven polygons: seven
  calls, the one for the shape at index 6 filled with the first colour of the palette.\<close>

theorem fill_colour_by_index_witness:
  "(\<exists>img. create_mask_from_polygons circle_then_triangle (1024, 1024) = Inr img \<and>
      im_calls img = [Polygon [(0, 0), (4, 0), (2, 3)] (colors ! 1) (255, 255, 255)]) \<and>
   (\<exists>img. create_mask_from_polygons seven_polygons (1024, 1024) = Inr img \<and>
      map fill (im_calls img) =
        [colors ! 0, colors ! 1, colors ! 2, colors ! 3, colors ! 4, colors ! 5, colors ! 0] \<and>
      Polygon [(0, 0), (4, 0), (2, 3)] (colors ! 0) (255, 255, 255) \<in> set (im_calls img))"
proof (intro conjI)
  let ?t = "[(0, 0), (4, 0), (2, 3)] :: (int \<times> int) list"
  let ?shapes = "[circle, triangle]"
  let ?img = "\<lparr>im_size = (1024, 1024), im_background = (0, 0, 0),
     im_calls = [Polygon ?t (0, 255, 0) (255, 255, 255)]\<rparr>"
  have get: "dict_get circle_then_triangle ''shapes'' (JArr []) = Inr (JArr ?shapes)"
    by (simp add: dict_get_def circle_then_triangle_def)
  have iter: "py_iter (JArr ?shapes) = Inr ?shapes"
    by (simp add: py_iter_def)
  have run: "create_mask_from_polygons circle_then_triangle (1024, 1024) = Inr ?img"
    by (simp add: create_mask_from_polygons_def get iter draw_triangle draw_circle
        Image_new_def colors_def)
  from fill_colour_by_index [OF get iter run] obtain drawn where
    len: "length drawn = length ?shapes" and
    tie: "\<forall>i<length ?shapes. \<forall>ps. drawn ! i = Some ps \<longleftrightarrow>
            subscript (?shapes ! i) ''shape_type'' = Inr (JStr ''polygon'') \<and>
            shape_points (?shapes ! i) = Inr ps \<and> 3 \<le> length ps" and
    calls: "im_calls ?img =
          concat (map (\<lambda>(i, d). case d of None \<Rightarrow> []
                     | Some ps \<Rightarrow> [Polygon ps (colors ! (i mod 6)) (255, 255, 255)])
                   (enumerate 0 drawn))"
    by blast
  from len obtain a b where drawn: "drawn = [a, b]"
    by (auto simp: length_Suc_conv)
  from tie [rule_format, of 0] have "\<forall>ps. a \<noteq> Some ps"
    by (simp add: drawn circle_type)
  then have a: "a = None" by (cases a) simp_all
  from tie [rule_format, of 1 ?t] have b: "b = Some ?t"
    by (simp add: drawn triangle_type triangle_points)
  from calls have "im_calls ?img = [Polygon ?t (colors ! 1) (255, 255, 255)]"
    unfolding drawn a b by simp
  with run show "\<exists>img. create_mask_from_polygons circle_then_triangle (1024, 1024) = Inr img \<and>
      im_calls img = [Polygon ?t (colors ! 1) (255, 255, 255)]"
    by (intro exI [of _ ?img] conjI)
next
  let ?t = "[(0, 0), (4, 0), (2, 3)] :: (int \<times> int) list"
  let ?shapes = "[triangle, triangle, triangle, triangle, triangle, triangle, triangle]"
  let ?img = "\<lparr>im_size = (1024, 1024), im_background = (0, 0, 0),
     im_calls = [Polygon ?t (255, 0, 0) (255, 255, 255), Polygon ?t (0, 255, 0) (255, 255, 255),
       Polygon ?t (0, 0, 255) (255, 255, 255), Polygon ?t (255, 255, 0) (255, 255, 255),
       Polygon ?t (255, 0, 255) (255, 255, 255), Polygon ?t (0, 255, 255) (255, 255, 255),
       Polygon ?t (255, 0, 0) (255, 255, 255)]\<rparr>"
  have get: "dict_get seven_polygons ''shapes'' (JArr []) = Inr (JArr ?shapes)"
    by (simp add: dict_get_def seven_polygons_def)
  have iter: "py_iter (JArr ?shapes) = Inr ?shapes"
    by (simp add: py_iter_def)
  have run: "create_mask_from_polygons seven_polygons (1024, 1024) = Inr ?img"
    by (simp add: create_mask_from_polygons_def get iter draw_triangle Image_new_def
        colors_def)
  have fills: "map fill (im_calls ?img) =
       [colors ! 0, colors ! 1, colors ! 2, colors ! 3, colors ! 4, colors ! 5, colors ! 0]"
    by (simp add: colors_def)
  have six: "(6::nat) < length ?shapes" by simp
  have last: "?shapes ! 6 = triangle" by simp
  have three: "3 \<le> length ?t" by simp
  from fill_colour_by_index [OF get iter run] have
    "\<forall>i<length ?shapes. \<forall>ps.
            subscript (?shapes ! i) ''shape_type'' = Inr (JStr ''polygon'') \<and>
            shape_points (?shapes ! i) = Inr ps \<and> 3 \<le> length ps \<longrightarrow>
            Polygon ps (colors ! (i mod 6)) (255, 255, 255) \<in> set (im_calls ?img)"
    by (rule conjunct2)
  from this [rule_format, of 6 ?t] six last triangle_type triangle_points three
  have "Polygon ?t (colors ! (6 mod 6)) (255, 255, 255) \<in> set (im_calls ?img)"
    by (simp only: simp_thms)
  then have "Polygon ?t (colors ! 0) (255, 255, 255) \<in> set (im_calls ?img)"
    by (simp only: mod_self)
  with run fills show "\<exists>img. create_mask_from_polygons seven_polygons (1024, 1024) = Inr img \<and>
      map fill (im_calls img) =
        [colors ! 0, colors ! 1, colors ! 2, colors ! 3, colors ! 4, colors ! 5, colors ! 0] \<and>
      Polygon ?t (colors ! 0) (255, 255, 255) \<in> set (im_calls img)"
    by (intro exI [of _ ?img] conjI)
qed

text \<open>
  C4. For a record whose \<^verbatim>\<open>shapes\<close> key is absent or holds the empty list, the
  Rasterizer returns the canvas \<^verbatim>\<open>Image.new\<close> made: the requested size, black, and no
  drawing call on it, so that every pixel is black whatever the library paints for a
  call.
\<close>

theorem no_shapes_black_canvas:
  assumes "map_of kvs ''shapes'' = None \<or> map_of kvs ''shapes'' = Some (JArr [])"
  shows "create_mask_from_polygons (JObj kvs) image_size =
           Inr \<lparr>im_size = image_size, im_background = (0, 0, 0), im_calls = []\<rparr> \<and>
         pixel paint \<lparr>im_size = image_size, im_background = (0, 0, 0), im_calls = []\<rparr> p
           = (0, 0, 0)"
  using assms
  by (auto simp: create_mask_from_polygons_def dict_get_def py_iter_def Image_new_def pixel_def)

theorem no_shapes_black_canvas_witness:
  "create_mask_from_polygons (JObj []) (1024, 1024) =
     Inr \<lparr>im_size = (1024, 1024), im_background = (0, 0, 0), im_calls = []\<rparr> \<and>
   create_mask_from_polygons (JObj [(''shapes'', JArr [])]) (640, 480) =
     Inr \<lparr>im_size = (640, 480), im_background = (0, 0, 0), im_calls = []\<rparr> \<and>
   pixel (\<lambda>c q. Some (fill c))
     \<lparr>im_size = (640, 480), im_background = (0, 0, 0), im_calls = []\<rparr> (3, 5) = (0, 0, 0)"
proof -
  have absent: "map_of ([] :: (string \<times> json) list) ''shapes'' = None \<or>
      map_of ([] :: (string \<times> json) list) ''shapes'' = Some (JArr [])"
    by simp
  have empty: "map_of [(''shapes'', JArr [])] ''shapes'' = None \<or>
      map_of [(''shapes'', JArr [])] ''shapes'' = Some (JArr [])"
    by simp
  from no_shapes_black_canvas [OF absent, of "(1024, 1024)"]
    no_shapes_black_canvas [OF empty, of "(640, 480)" "\<lambda>c q. Some (fill c)" "(3, 5)"]
  show ?thesis by simp
qed

text \<open>
  C5, as the code has it. A shape whose \<^verbatim>\<open>points\<close> has fewer than three entries is never
  drawn: the loop body either returns the canvas it was given or raises. It returns the
  canvas, which is the silent skip, exactly when the shape has a \<^verbatim>\<open>shape_type\<close> and,
  if that is \<^verbatim>\<open>polygon\<close>, every point converts to a pair of integers; for any other
  shape with fewer than three points it raises.
\<close>

theorem few_points_not_drawn:
  assumes "subscript shape ''points'' = Inr pv"
    and "py_iter pv = Inr es"
    and "length es < 3"
  shows "(draw_shape i shape img = Inr img \<or> (\<exists>e. draw_shape i shape img = Inl e)) \<and>
         (draw_shape i shape img = Inr img \<longleftrightarrow>
            (\<exists>t. subscript shape ''shape_type'' = Inr t \<and>
                 (t = JStr ''polygon'' \<longrightarrow> (\<exists>ps. int_pairs es = Inr ps))))"
proof -
  have pts: "shape_points shape = int_pairs es"
    by (simp add: shape_points_def assms(1,2))
  show ?thesis
  proof (cases "subscript shape ''shape_type''")
    case (Inl e)
    then show ?thesis by (simp add: draw_shape_def)
  next
    case (Inr t)
    show ?thesis
    proof (cases "t = JStr ''polygon''")
      case False
      with Inr show ?thesis by (simp add: draw_shape_def)
    next
      case True
      show ?thesis
      proof (cases "int_pairs es")
        case (Inl e)
        with Inr True pts show ?thesis by (simp add: draw_shape_def)
      next
        case ps: (Inr ps)
        with assms(3) have "\<not> 3 \<le> length ps" by (simp add: length_int_pairs)
        with Inr True pts ps show ?thesis by (simp add: draw_shape_def)
      qed
    qed
  qed
qed

text \<open>A polygon of two points, at index 2.\<close>

theorem few_points_not_drawn_witness:
  "subscript segment ''points'' = Inr (JArr [JArr [JInt 0, JInt 0], JArr [JInt 4, JInt 4]]) \<and>
   length [JArr [JInt 0, JInt 0], JArr [JInt 4, JInt 4]] < 3 \<and>
   subscript segment ''shape_type'' = Inr (JStr ''polygon'') \<and>
   int_pairs [JArr [JInt 0, JInt 0], JArr [JInt 4, JInt 4]] = Inr [(0, 0), (4, 4)] \<and>
   draw_shape 2 segment (Image_new (1024, 1024) (0, 0, 0)) = Inr (Image_new (1024, 1024) (0, 0, 0))"
proof -
  let ?es = "[JArr [JInt 0, JInt 0], JArr [JInt 4, JInt 4]]"
  have points: "subscript segment ''points'' = Inr (JArr ?es)"
    by (simp add: segment_def subscript_def)
  have iter: "py_iter (JArr ?es) = Inr ?es" by (simp add: py_iter_def)
  have few: "length ?es < 3" by simp
  have tag: "subscript segment ''shape_type'' = Inr (JStr ''polygon'')"
    by (simp add: segment_def subscript_def)
  have pairs: "int_pairs ?es = Inr [(0, 0), (4, 4)]"
    by (simp add: int_pair_def py_iter_def py_int_def)
  from few_points_not_drawn [OF points iter few, of 2 "Image_new (1024, 1024) (0, 0, 0)"]
  have "draw_shape 2 segment (Image_new (1024, 1024) (0, 0, 0))
          = Inr (Image_new (1024, 1024) (0, 0, 0)) \<longleftrightarrow>
        (\<exists>t. subscript segment ''shape_type'' = Inr t \<and>
             (t = JStr ''polygon'' \<longrightarrow> (\<exists>ps. int_pairs ?es = Inr ps)))"
    by (rule conjunct2)
  with tag pairs have "draw_shape 2 segment (Image_new (1024, 1024) (0, 0, 0))
          = Inr (Image_new (1024, 1024) (0, 0, 0))"
    by simp
  with points few tag pairs show ?thesis by (intro conjI)
qed

text \<open>
  C5 as stated fails: a shape of two points that has no \<^verbatim>\<open>shape_type\<close> is not skipped,
  the loop body raises KeyError; nor is a polygon whose only point has \<^verbatim>\<open>null\<close> for a
  coordinate, for which \<^verbatim>\<open>int\<close> raises TypeError. The Rasterizer raises on a record that
  holds either.
\<close>

theorem few_points_raises_counterexample:
  "draw_shape 0 (JObj [(''points'', JArr [JArr [JInt 0, JInt 0], JArr [JInt 4, JInt 4]])])
     (Image_new (1024, 1024) (0, 0, 0)) = Inl KeyError \<and>
   create_mask_from_polygons
     (JObj [(''shapes'',
        JArr [JObj [(''points'', JArr [JArr [JInt 0, JInt 0], JArr [JInt 4, JInt 4]])]])])
     (1024, 1024) = Inl KeyError \<and>
   draw_shape 0 (JObj [(''shape_type'', JStr ''polygon''), (''points'', JArr [JArr [JInt 0, JNull]])])
     (Image_new (1024, 1024) (0, 0, 0)) = Inl TypeError \<and>
   create_mask_from_polygons
     (JObj [(''shapes'',
        JArr [JObj [(''shape_type'', JStr ''polygon''), (''points'', JArr [JArr [JInt 0, JNull]])]])])
     (1024, 1024) = Inl TypeError"
  by (simp add: create_mask_from_polygons_def dict_get_def py_iter_def Image_new_def
      draw_shape_def shape_points_def subscript_def int_pair_def py_int_def)

text \<open>
  C7. A shape whose \<^verbatim>\<open>shape_type\<close> is a string other than \<^verbatim>\<open>polygon\<close>: the loop body
  returns the canvas it was given; nothing is raised and nothing is drawn.
\<close>

theorem non_polygon_ignored:
  assumes "map_of kvs ''shape_type'' = Some (JStr t)" and "t \<noteq> ''polygon''"
  shows "draw_shape i (JObj kvs) img = Inr img"
  using assms by (simp add: draw_shape_def subscript_def)

theorem non_polygon_ignored_witness:
  "''circle'' \<noteq> ''polygon'' \<and>
   draw_shape 1 circle (Image_new (1024, 1024) (0, 0, 0)) = Inr (Image_new (1024, 1024) (0, 0, 0))"
proof -
  let ?kvs = "[(''shape_type'', JStr ''circle''), (''points'', JArr [])]"
  have tag: "map_of ?kvs ''shape_type'' = Some (JStr ''circle'')" by simp
  have other: "''circle'' \<noteq> ''polygon''" by simp
  from non_polygon_ignored [OF tag other, of 1 "Image_new (1024, 1024) (0, 0, 0)"] other
  show ?thesis by (simp add: circle_def)
qed

text \<open>
  C9. The Rasterizer raises on some records: KeyError for a shape without the
  \<^verbatim>\<open>shape_type\<close> key, ValueError for a polygon one of whose points has three
  coordinates.
\<close>

theorem malformed_shape_raises:
  "create_mask_from_polygons
     (JObj [(''shapes'', JArr [JObj [(''points'', JArr [])]])]) (1024, 1024) = Inl KeyError \<and>
   create_mask_from_polygons
     (JObj [(''shapes'', JArr [JObj [(''shape_type'', JStr ''polygon''),
        (''points'', JArr [JArr [JInt 1, JInt 2, JInt 3]])]])]) (1024, 1024) = Inl ValueError"
  by (simp add: create_mask_from_polygons_def dict_get_def py_iter_def Image_new_def
      draw_shape_def shape_points_def subscript_def int_pair_def)

subsection \<open>The Stats Aggregator\<close>

lemma listdir_mk_world: "listdir (mk_world files) (masks_path [''data'']) = map fst files"
  by (simp add: mk_world_def masks_path_def train_dir_def)

lemma read_mk_world:
  "read_json (mk_world files) (train_dir @ [name]) =
     (case map_of files name of Some r \<Rightarrow> r | None \<Rightarrow> Inl OSError)"
  by (simp add: mk_world_def)

lemma glob_mk_world:
  "glob_json (mk_world files) (masks_path [''data'']) =
     map (\<lambda>name. train_dir @ [name]) (filter matches_json (map fst files))"
  by (simp add: glob_json_def mk_world_def masks_path_def train_dir_def)

lemma stats_step_failed: "load_mask_data w f = Inl e \<Longrightarrow> stats_step w f acc = acc"
  by (simp add: stats_step_def)

lemma stats_loop_append:
  "stats_loop w (xs @ ys) acc = stats_loop w ys (stats_loop w xs acc)"
  by (induction xs arbitrary: acc) simp_all

lemma stats_loop_same_files:
  "\<forall>p \<in> set fs. read_json w' p = read_json w p \<Longrightarrow> stats_loop w' fs acc = stats_loop w fs acc"
  by (induction fs arbitrary: acc) (simp_all add: stats_step_def load_mask_data_def)

lemma glob_corrupt: "glob_json world_corrupt (masks_path [''data'']) =
   [train_dir @ [''a_mask.json'']] @ (train_dir @ [''bad.json'']) # [train_dir @ [''c_mask.json'']]"
  by (simp add: world_corrupt_def glob_mk_world matches_json_def)

lemma glob_clean: "glob_json world_clean (masks_path [''data'']) =
   [train_dir @ [''a_mask.json'']] @ [train_dir @ [''c_mask.json'']]"
  by (simp add: world_clean_def glob_mk_world matches_json_def)

lemma num_shapes_tile_a: "num_shapes tile_a = Inr 3"
  by (simp add: num_shapes_def dict_get_def py_len_def tile_a_def)

lemma stats_clean: "analyze_dataset_stats world_clean [''data''] =
   \<lparr>total_tiles = 2, total_buildings = 3, avg_buildings_per_tile = 3 / 2,
      max_buildings_per_tile = 3, min_buildings_per_tile = 0\<rparr>"
proof -
  have a: "load_mask_data world_clean (train_dir @ [''a_mask.json'']) = Inr tile_a"
    by (simp add: load_mask_data_def world_clean_def read_mk_world)
  have c: "load_mask_data world_clean (train_dir @ [''c_mask.json'']) = Inr (JObj [])"
    by (simp add: load_mask_data_def world_clean_def read_mk_world)
  have e: "num_shapes (JObj []) = Inr 0"
    by (simp add: num_shapes_def dict_get_def py_len_def)
  have "stats_loop world_clean (glob_json world_clean (masks_path [''data''])) (0, [])
          = (3, [3, 0])"
    by (simp add: glob_clean stats_step_def a c e num_shapes_tile_a)
  then show ?thesis
    by (simp add: analyze_dataset_stats_def Let_def mean_def glob_clean)
qed

text \<open>
  C1, as the code has it. A file whose load fails changes no accumulator of the loop, so
  \<^verbatim>\<open>total_buildings\<close> and the average, maximum and minimum are those of the same
  directory without the file. \<^verbatim>\<open>total_tiles\<close> is the number of files the scan found,
  and counts the failed file: it is one more than without it.
\<close>

theorem failed_file_counts_as_tile_only:
  assumes "load_mask_data w f = Inl e"
    and "glob_json w (masks_path data_dir) = xs @ f # ys"
    and "glob_json w' (masks_path data_dir) = xs @ ys"
    and "\<forall>p \<in> set (xs @ ys). read_json w' p = read_json w p"
  shows "analyze_dataset_stats w data_dir =
           (analyze_dataset_stats w' data_dir)
             \<lparr>total_tiles := Suc (total_tiles (analyze_dataset_stats w' data_dir))\<rparr>"
proof -
  have "stats_loop w (xs @ f # ys) (0, []) = stats_loop w (xs @ ys) (0, [])"
    by (simp add: stats_loop_append stats_step_failed [OF assms(1)])
  also have "\<dots> = stats_loop w' (xs @ ys) (0, [])"
    by (rule stats_loop_same_files [OF assms(4), symmetric])
  finally show ?thesis
    by (simp add: analyze_dataset_stats_def assms(2,3) Let_def)
qed

theorem failed_file_counts_as_tile_only_witness:
  "load_mask_data world_corrupt (train_dir @ [''bad.json'']) = Inl JSONDecodeError \<and>
   analyze_dataset_stats world_corrupt [''data''] =
     \<lparr>total_tiles = 3, total_buildings = 3, avg_buildings_per_tile = 3 / 2,
      max_buildings_per_tile = 3, min_buildings_per_tile = 0\<rparr>"
proof -
  have bad: "load_mask_data world_corrupt (train_dir @ [''bad.json'']) = Inl JSONDecodeError"
    by (simp add: load_mask_data_def world_corrupt_def read_mk_world)
  have same: "\<forall>p \<in> set ([train_dir @ [''a_mask.json'']] @ [train_dir @ [''c_mask.json'']]).
      read_json world_clean p = read_json world_corrupt p"
    by (simp add: world_clean_def world_corrupt_def read_mk_world)
  from failed_file_counts_as_tile_only [OF bad glob_corrupt glob_clean same] bad
  show ?thesis by (simp add: stats_clean)
qed

text \<open>
  C1 as stated fails: in a directory whose only file cannot be parsed, the failed file is
  counted as a tile.
\<close>

theorem failed_file_counted_counterexample:
  "glob_json world_only_corrupt (masks_path [''data'']) = [train_dir @ [''bad.json'']] \<and>
   load_mask_data world_only_corrupt (train_dir @ [''bad.json'']) = Inl JSONDecodeError \<and>
   total_tiles (analyze_dataset_stats world_only_corrupt [''data'']) = 1"
  by (simp add: analyze_dataset_stats_def world_only_corrupt_def glob_mk_world read_mk_world
      matches_json_def load_mask_data_def Let_def)

text \<open>
  C2. When the directory holds no name that matches \<^verbatim>\<open>*.json\<close>, the function returns
  0 for the five aggregates. The model of \<^verbatim>\<open>analyze_dataset_stats\<close> has no exception
  branch at all: every statement that can raise is inside the \<^verbatim>\<open>try\<close>, and the
  mean, maximum and minimum are taken only of a non-empty list.
\<close>

theorem empty_scan_all_zero:
  assumes "filter matches_json (listdir w (masks_path data_dir)) = []"
  shows "analyze_dataset_stats w data_dir =
           \<lparr>total_tiles = 0, total_buildings = 0, avg_buildings_per_tile = 0,
            max_buildings_per_tile = 0, min_buildings_per_tile = 0\<rparr>"
  using assms by (simp add: analyze_dataset_stats_def glob_json_def)

theorem empty_scan_all_zero_witness:
  "filter matches_json (listdir world_no_match (masks_path [''data''])) = [] \<and>
   analyze_dataset_stats world_no_match [''data''] =
           \<lparr>total_tiles = 0, total_buildings = 0, avg_buildings_per_tile = 0,
            max_buildings_per_tile = 0, min_buildings_per_tile = 0\<rparr>"
proof -
  have none: "filter matches_json (listdir world_no_match (masks_path [''data''])) = []"
    by (simp add: world_no_match_def listdir_mk_world matches_json_def)
  from empty_scan_all_zero [OF none] none show ?thesis by simp
qed

subsection \<open>The Sample Visualizer\<close>

text \<open>A text is written into a cell of the grid for every index below 6, so the loop
  over at most six files cannot raise: an exception in the \<^verbatim>\<open>try\<close> block is caught,
  and the handler's own indexing succeeds.\<close>

lemma axes_index_cell: "i < 6 \<Longrightarrow> axes_index (i div 3) (i mod 3) = Inr i"
  by (simp add: axes_index_def less_mult_imp_div_less)

lemma show_sample_returns: "i < 6 \<Longrightarrow> \<exists>ax'. show_sample w i f ax = Inr ax'"
  by (simp add: show_sample_def axes_index_cell Let_def split: prod.splits option.splits)

lemma show_samples_returns:
  "i + length fs \<le> 6 \<Longrightarrow> \<exists>ax'. show_samples w i fs ax = Inr ax'"
proof (induction fs arbitrary: i ax)
  case Nil
  then show ?case by simp
next
  case (Cons f fs)
  then have "i < 6" by simp
  from show_sample_returns [OF this] obtain mid where "show_sample w i f ax = Inr mid"
    by blast
  moreover from Cons.prems have "Suc i + length fs \<le> 6" by simp
  from Cons.IH [OF this] obtain ax' where "show_samples w (Suc i) fs mid = Inr ax'"
    by blast
  ultimately show ?case by simp
qed

lemma sample_pool_step:
  "sample_pool draws (p # ps) (Suc k) =
     (p # ps) ! ((case draws of [] \<Rightarrow> 0 | d # _ \<Rightarrow> d) mod length (p # ps)) #
     sample_pool (tl draws)
       (take ((case draws of [] \<Rightarrow> 0 | d # _ \<Rightarrow> d) mod length (p # ps)) (p # ps) @
        drop (Suc ((case draws of [] \<Rightarrow> 0 | d # _ \<Rightarrow> d) mod length (p # ps))) (p # ps)) k"
  by (simp only: sample_pool.simps Let_def)

lemma length_sample_pool: "length (sample_pool draws pool k) = min k (length pool)"
proof (induction draws pool k rule: sample_pool.induct)
  case (3 draws p ps k)
  define j where "j = (case draws of [] \<Rightarrow> 0 | d # _ \<Rightarrow> d) mod length (p # ps)"
  have "j < length (p # ps)" unfolding j_def by simp
  then have "length (take j (p # ps) @ drop (Suc j) (p # ps)) = length ps" by auto
  with "3.IH" [OF j_def]
  have "length (sample_pool (tl draws) (take j (p # ps) @ drop (Suc j) (p # ps)) k)
          = min k (length ps)"
    by simp
  then show ?case
    unfolding sample_pool_step j_def [symmetric] by simp
qed simp_all

lemma set_sample_pool: "set (sample_pool draws pool k) \<subseteq> set pool"
proof (induction draws pool k rule: sample_pool.induct)
  case (3 draws p ps k)
  define j where "j = (case draws of [] \<Rightarrow> 0 | d # _ \<Rightarrow> d) mod length (p # ps)"
  define rest where "rest = take j (p # ps) @ drop (Suc j) (p # ps)"
  have lt: "j < length (p # ps)" unfolding j_def by simp
  have "set rest \<subseteq> set (p # ps)"
    unfolding rest_def by (auto dest: in_set_takeD in_set_dropD)
  with "3.IH" [OF j_def] have "set (sample_pool (tl draws) rest k) \<subseteq> set (p # ps)"
    unfolding rest_def by blast
  moreover have "(p # ps) ! j \<in> set (p # ps)" using lt by (rule nth_mem)
  ultimately have "set ((p # ps) ! j # sample_pool (tl draws) rest k) \<subseteq> set (p # ps)"
    by simp
  then show ?case
    unfolding sample_pool_step j_def [symmetric] rest_def [symmetric] .
qed simp_all

lemma distinct_sample_pool: "distinct pool \<Longrightarrow> distinct (sample_pool draws pool k)"
proof (induction draws pool k rule: sample_pool.induct)
  case (3 draws p ps k)
  define j where "j = (case draws of [] \<Rightarrow> 0 | d # _ \<Rightarrow> d) mod length (p # ps)"
  define rest where "rest = take j (p # ps) @ drop (Suc j) (p # ps)"
  have lt: "j < length (p # ps)" unfolding j_def by simp
  have whole: "p # ps = take j (p # ps) @ (p # ps) ! j # drop (Suc j) (p # ps)"
    using lt by (rule id_take_nth_drop)
  from "3.prems" have "distinct (take j (p # ps) @ (p # ps) ! j # drop (Suc j) (p # ps))"
    using whole by metis
  then have d: "distinct rest" and notin: "(p # ps) ! j \<notin> set rest"
    unfolding rest_def by auto
  from "3.IH" [OF j_def] d have "distinct (sample_pool (tl draws) rest k)"
    unfolding rest_def by blast
  moreover from notin set_sample_pool [of "tl draws" rest k]
  have "(p # ps) ! j \<notin> set (sample_pool (tl draws) rest k)" by blast
  ultimately have "distinct ((p # ps) ! j # sample_pool (tl draws) rest k)"
    by simp
  then show ?case
    unfolding sample_pool_step j_def [symmetric] rest_def [symmetric] .
qed simp_all

lemma sample_pool_map: "sample_pool draws (map f pool) k = map f (sample_pool draws pool k)"
proof (induction draws pool k rule: sample_pool.induct)
  case (3 draws p ps k)
  define j where "j = (case draws of [] \<Rightarrow> 0 | d # _ \<Rightarrow> d) mod length (p # ps)"
  define rest where "rest = take j (p # ps) @ drop (Suc j) (p # ps)"
  have lt: "j < length (p # ps)" unfolding j_def by simp
  have j': "j = (case draws of [] \<Rightarrow> 0 | d # _ \<Rightarrow> d) mod length (f p # map f ps)"
    unfolding j_def by simp
  have "sample_pool draws (map f (p # ps)) (Suc k) =
      (f p # map f ps) ! j #
      sample_pool (tl draws) (take j (f p # map f ps) @ drop (Suc j) (f p # map f ps)) k"
    unfolding list.map sample_pool_step j' [symmetric] ..
  also have "(f p # map f ps) ! j = f ((p # ps) ! j)"
    using nth_map [OF lt, of f] by simp
  also have "take j (f p # map f ps) @ drop (Suc j) (f p # map f ps) = map f rest"
    unfolding rest_def list.map(2) [symmetric] by (simp only: take_map drop_map map_append)
  also have "sample_pool (tl draws) (map f rest) k = map f (sample_pool (tl draws) rest k)"
    using "3.IH" [OF j_def] unfolding rest_def .
  finally show ?case
    unfolding sample_pool_step [of draws p ps k] j_def [symmetric] rest_def [symmetric]
    by simp
qed simp_all

lemma sample_pool_positions:
  "\<exists>idx. sample_pool draws pool k = map (\<lambda>j. pool ! j) idx \<and> distinct idx \<and>
         (\<forall>j \<in> set idx. j < length pool) \<and> length idx = min k (length pool)"
proof -
  let ?idx = "sample_pool draws [0..<length pool] k"
  have "sample_pool draws pool k = sample_pool draws (map (\<lambda>j. pool ! j) [0..<length pool]) k"
    by (simp add: map_nth)
  also have "\<dots> = map (\<lambda>j. pool ! j) ?idx" by (rule sample_pool_map)
  finally have "sample_pool draws pool k = map (\<lambda>j. pool ! j) ?idx" .
  moreover have "distinct ?idx" by (rule distinct_sample_pool) simp
  moreover have "\<forall>j \<in> set ?idx. j < length pool"
    using set_sample_pool [of draws "[0..<length pool]" k] by auto
  moreover have "length ?idx = min k (length pool)" by (simp add: length_sample_pool)
  ultimately show ?thesis by blast
qed


lemma glob_distinct: "distinct (listdir w dir) \<Longrightarrow> distinct (glob_json w dir)"
  by (simp add: glob_json_def distinct_map inj_on_def)

lemma sample_files_positions:
  assumes "0 \<le> num_samples"
  shows "\<exists>idx. sample_files draws mask_files num_samples = Inr (map (\<lambda>j. mask_files ! j) idx) \<and>
           distinct idx \<and> (\<forall>j \<in> set idx. j < length mask_files) \<and>
           int (length idx) = min num_samples (int (length mask_files))"
proof -
  let ?k = "min num_samples (int (length mask_files))"
  from assms have k: "0 \<le> ?k" "?k \<le> int (length mask_files)" by simp_all
  then have run: "sample_files draws mask_files num_samples =
      Inr (sample_pool draws mask_files (nat ?k))"
    by (simp add: sample_files_def random_sample_def)
  from sample_pool_positions [of draws mask_files "nat ?k"] obtain idx where
    idx: "sample_pool draws mask_files (nat ?k) = map (\<lambda>j. mask_files ! j) idx"
      "distinct idx" "\<forall>j \<in> set idx. j < length mask_files"
      "length idx = min (nat ?k) (length mask_files)"
    by blast
  from idx(4) k have "int (length idx) = ?k" by linarith
  with run idx(1-3) show ?thesis by auto
qed

lemma distinct_positions:
  "distinct xs \<Longrightarrow> distinct idx \<Longrightarrow> \<forall>j \<in> set idx. j < length xs \<Longrightarrow>
     distinct (map (\<lambda>j. xs ! j) idx)"
  by (auto simp: distinct_map inj_on_def nth_eq_iff_index_eq)


lemma load_clean_a: "load_mask_data world_clean (train_dir @ [''a_mask.json'']) = Inr tile_a"
  by (simp add: load_mask_data_def world_clean_def read_mk_world)

lemma load_clean_c: "load_mask_data world_clean (train_dir @ [''c_mask.json'']) = Inr (JObj [])"
  by (simp add: load_mask_data_def world_clean_def read_mk_world)

lemma mask_tile_a:
  "create_mask_from_polygons tile_a (1024, 1024) =
     Inr \<lparr>im_size = (1024, 1024), im_background = (0, 0, 0),
          im_calls = [Polygon [(0, 0), (4, 0), (2, 3)] (255, 0, 0) (255, 255, 255)]\<rparr>"
  by (simp add: create_mask_from_polygons_def tile_a_def dict_get_def py_iter_def
      draw_triangle draw_circle draw_segment Image_new_def colors_def)

lemma mask_no_shapes:
  "create_mask_from_polygons (JObj []) (1024, 1024) =
     Inr \<lparr>im_size = (1024, 1024), im_background = (0, 0, 0), im_calls = []\<rparr>"
  by (simp add: create_mask_from_polygons_def dict_get_def py_iter_def Image_new_def)

lemma sample_clean:
  "sample_files [1, 0] [train_dir @ [''a_mask.json''], train_dir @ [''c_mask.json'']] 6 =
     Inr [train_dir @ [''c_mask.json''], train_dir @ [''a_mask.json'']]"
  by (simp add: sample_files_def random_sample_def numeral_2_eq_2)

lemma show_clean:
  "show_samples world_clean 0
     [train_dir @ [''c_mask.json''], train_dir @ [''a_mask.json'']] subplots =
   Inr [\<lparr>cell_image = Some \<lparr>im_size = (1024, 1024), im_background = (0, 0, 0), im_calls = []\<rparr>,
         cell_title = ''Tile: c'', cell_axis_on = False, cell_texts = [''Buildings: 0'']\<rparr>,
        \<lparr>cell_image = Some \<lparr>im_size = (1024, 1024), im_background = (0, 0, 0),
           im_calls = [Polygon [(0, 0), (4, 0), (2, 3)] (255, 0, 0) (255, 255, 255)]\<rparr>,
         cell_title = ''Tile: a'', cell_axis_on = False, cell_texts = [''Buildings: 3'']\<rparr>,
        \<lparr>cell_image = None, cell_title = [], cell_axis_on = True, cell_texts = []\<rparr>,
        \<lparr>cell_image = None, cell_title = [], cell_axis_on = True, cell_texts = []\<rparr>,
        \<lparr>cell_image = None, cell_title = [], cell_axis_on = True, cell_texts = []\<rparr>,
        \<lparr>cell_image = None, cell_title = [], cell_axis_on = True, cell_texts = []\<rparr>]"
proof -
  have n0: "num_shapes (JObj []) = Inr 0"
    by (simp add: num_shapes_def dict_get_def py_len_def)
  have stem_c: "remove_mask (path_stem ''c_mask.json'') = ''c''"
    by (simp add: path_stem_def)
  have stem_a: "remove_mask (path_stem ''a_mask.json'') = ''a''"
    by (simp add: path_stem_def)
  have s0: "str_nat 0 = ''0''" by code_simp
  have s3: "str_nat 3 = ''3''" by code_simp
  have grid: "subplots =
      [\<lparr>cell_image = None, cell_title = [], cell_axis_on = True, cell_texts = []\<rparr>,
       \<lparr>cell_image = None, cell_title = [], cell_axis_on = True, cell_texts = []\<rparr>,
       \<lparr>cell_image = None, cell_title = [], cell_axis_on = True, cell_texts = []\<rparr>,
       \<lparr>cell_image = None, cell_title = [], cell_axis_on = True, cell_texts = []\<rparr>,
       \<lparr>cell_image = None, cell_title = [], cell_axis_on = True, cell_texts = []\<rparr>,
       \<lparr>cell_image = None, cell_title = [], cell_axis_on = True, cell_texts = []\<rparr>]"
    by (simp add: subplots_def eval_nat_numeral)
  show ?thesis
    by (simp add: grid show_sample_def try_show_def load_clean_a load_clean_c mask_tile_a
        mask_no_shapes num_shapes_tile_a n0 axes_index_def stem_a stem_c s0 s3 Let_def)
qed

text \<open>
  C6. For a non-empty scan and a request that is not negative, \<^verbatim>\<open>sample_files\<close> is the
  files at \<open>min(requested, available)\<close> pairwise different positions of the scan, hence
  pairwise different files, since the names of a directory are. When these are at most
  six the loop over them returns and so does the function.
\<close>

theorem sample_selects_min_distinct:
  assumes "mask_files = glob_json w (masks_path data_dir)"
    and "mask_files \<noteq> []"
    and "0 \<le> num_samples"
  shows "\<exists>idx. sample_files draws mask_files num_samples = Inr (map (\<lambda>j. mask_files ! j) idx) \<and>
           distinct idx \<and> (\<forall>j \<in> set idx. j < length mask_files) \<and>
           int (length idx) = min num_samples (int (length mask_files)) \<and>
           (distinct (listdir w (masks_path data_dir))
              \<longrightarrow> distinct (map (\<lambda>j. mask_files ! j) idx)) \<and>
           (length idx \<le> 6 \<longrightarrow>
              (\<exists>ax. show_samples w 0 (map (\<lambda>j. mask_files ! j) idx) subplots = Inr ax \<and>
                 visualize_sample_masks w draws data_dir num_samples =
                   Inr \<lparr>vis_figure = Some ax, vis_return = Some (length mask_files)\<rparr>))"
proof -
  from sample_files_positions [OF assms(3), of draws mask_files] obtain idx where
    idx: "sample_files draws mask_files num_samples = Inr (map (\<lambda>j. mask_files ! j) idx)"
      "distinct idx" "\<forall>j \<in> set idx. j < length mask_files"
      "int (length idx) = min num_samples (int (length mask_files))"
    by blast
  have d: "distinct (listdir w (masks_path data_dir))
             \<longrightarrow> distinct (map (\<lambda>j. mask_files ! j) idx)"
    using distinct_positions [OF _ idx(2,3)] glob_distinct [of w "masks_path data_dir"]
    by (simp add: assms(1))
  have "\<exists>ax. show_samples w 0 (map (\<lambda>j. mask_files ! j) idx) subplots = Inr ax \<and>
                 visualize_sample_masks w draws data_dir num_samples =
                   Inr \<lparr>vis_figure = Some ax, vis_return = Some (length mask_files)\<rparr>"
    if "length idx \<le> 6"
  proof -
    from that have "0 + length (map (\<lambda>j. mask_files ! j) idx) \<le> 6" by simp
    from show_samples_returns [OF this] obtain ax where
      ax: "show_samples w 0 (map (\<lambda>j. mask_files ! j) idx) subplots = Inr ax"
      by blast
    with idx(1) assms(1,2) show ?thesis
      by (simp add: visualize_sample_masks_def Let_def)
  qed
  with idx d show ?thesis by blast
qed

text \<open>Six samples asked of a directory with two valid files and one file that does not
  match: both files are shown, each once, and four cells stay empty.\<close>

theorem sample_selects_min_distinct_witness:
  "glob_json world_clean (masks_path [''data'']) \<noteq> [] \<and>
   (\<exists>files ax.
      sample_files [1, 0] (glob_json world_clean (masks_path [''data''])) 6 = Inr files \<and>
      length files = 2 \<and> distinct files \<and>
      visualize_sample_masks world_clean [1, 0] [''data''] 6 =
        Inr \<lparr>vis_figure = Some ax, vis_return = Some 2\<rparr> \<and>
      map (\<lambda>c. cell_image c = None) ax = [False, False, True, True, True, True])"
proof -
  let ?files = "glob_json world_clean (masks_path [''data''])"
  have files: "?files = [train_dir @ [''a_mask.json''], train_dir @ [''c_mask.json'']]"
    by (simp add: glob_clean)
  have ne: "?files \<noteq> []" by (simp add: files)
  have names: "distinct (listdir world_clean (masks_path [''data'']))"
    by (simp add: world_clean_def listdir_mk_world)
  from sample_selects_min_distinct [OF refl ne, of 6 "[1, 0]"] obtain idx ax where
    chosen: "sample_files [1, 0] ?files 6 = Inr (map (\<lambda>j. ?files ! j) idx)" and
    count: "int (length idx) = min 6 (int (length ?files))" and
    once: "distinct (listdir world_clean (masks_path [''data'']))
             \<longrightarrow> distinct (map (\<lambda>j. ?files ! j) idx)" and
    shown: "length idx \<le> 6 \<longrightarrow>
              (\<exists>ax. show_samples world_clean 0 (map (\<lambda>j. ?files ! j) idx) subplots = Inr ax \<and>
                 visualize_sample_masks world_clean [1, 0] [''data''] 6 =
                   Inr \<lparr>vis_figure = Some ax, vis_return = Some (length ?files)\<rparr>)"
    by auto
  from count have two: "length idx = 2" by (simp add: files)
  from chosen have sel: "map (\<lambda>j. ?files ! j) idx =
      [train_dir @ [''c_mask.json''], train_dir @ [''a_mask.json'']]"
    unfolding files sample_clean by simp
  from shown two obtain ax where
    ax: "show_samples world_clean 0 (map (\<lambda>j. ?files ! j) idx) subplots = Inr ax" and
    vis: "visualize_sample_masks world_clean [1, 0] [''data''] 6 =
            Inr \<lparr>vis_figure = Some ax, vis_return = Some (length ?files)\<rparr>"
    by auto
  from ax have cells: "map (\<lambda>c. cell_image c = None) ax = [False, False, True, True, True, True]"
    unfolding sel show_clean by auto
  from vis have vis2: "visualize_sample_masks world_clean [1, 0] [''data''] 6 =
            Inr \<lparr>vis_figure = Some ax, vis_return = Some 2\<rparr>"
    by (simp add: files)
  from once names have "distinct (map (\<lambda>j. ?files ! j) idx)" by simp
  with ne chosen two vis2 cells show ?thesis
    by (intro conjI exI [of _ "map (\<lambda>j. ?files ! j) idx"] exI [of _ ax]) simp_all
qed










text \<open>
  C10. When the scan finds nothing the function returns \<^verbatim>\<open>None\<close>, and no figure is
  made. When it finds files, every return is the number of files found, and the function
  does return when a non-negative number of samples is asked and at most six files are
  to be shown.
\<close>

theorem visualize_return_value:
  "(glob_json w (masks_path data_dir) = [] \<longrightarrow>
      visualize_sample_masks w draws data_dir num_samples =
        Inr \<lparr>vis_figure = None, vis_return = None\<rparr>) \<and>
   (glob_json w (masks_path data_dir) \<noteq> [] \<longrightarrow>
      (\<forall>r. visualize_sample_masks w draws data_dir num_samples = Inr r \<longrightarrow>
            vis_return r = Some (length (glob_json w (masks_path data_dir)))) \<and>
      (0 \<le> num_samples \<and> min num_samples (int (length (glob_json w (masks_path data_dir)))) \<le> 6
         \<longrightarrow> (\<exists>ax. visualize_sample_masks w draws data_dir num_samples =
                Inr \<lparr>vis_figure = Some ax,
                     vis_return = Some (length (glob_json w (masks_path data_dir)))\<rparr>)))"
proof (intro conjI impI allI)
  assume "glob_json w (masks_path data_dir) = []"
  then show "visualize_sample_masks w draws data_dir num_samples =
        Inr \<lparr>vis_figure = None, vis_return = None\<rparr>"
    by (simp add: visualize_sample_masks_def)
next
  fix r
  assume "glob_json w (masks_path data_dir) \<noteq> []"
    and "visualize_sample_masks w draws data_dir num_samples = Inr r"
  then show "vis_return r = Some (length (glob_json w (masks_path data_dir)))"
    by (auto simp: visualize_sample_masks_def Let_def split: sum.splits)
next
  let ?files = "glob_json w (masks_path data_dir)"
  assume ne: "?files \<noteq> []"
    and n: "0 \<le> num_samples \<and> min num_samples (int (length ?files)) \<le> 6"
  from n have "0 \<le> num_samples" ..
  from sample_files_positions [OF this, of draws ?files] obtain idx where
    idx: "sample_files draws ?files num_samples = Inr (map (\<lambda>j. ?files ! j) idx)"
      "int (length idx) = min num_samples (int (length ?files))"
    by blast
  from idx(2) n have "0 + length (map (\<lambda>j. ?files ! j) idx) \<le> 6" by simp
  from show_samples_returns [OF this] obtain ax where
    "show_samples w 0 (map (\<lambda>j. ?files ! j) idx) subplots = Inr ax"
    by blast
  with idx(1) ne show "\<exists>ax. visualize_sample_masks w draws data_dir num_samples =
                Inr \<lparr>vis_figure = Some ax, vis_return = Some (length ?files)\<rparr>"
    by (simp add: visualize_sample_masks_def Let_def)
qed

theorem visualize_return_value_witness:
  "glob_json world_no_match (masks_path [''data'']) = [] \<and>
   visualize_sample_masks world_no_match [] [''data''] 6 =
     Inr \<lparr>vis_figure = None, vis_return = None\<rparr> \<and>
   glob_json world_clean (masks_path [''data'']) \<noteq> [] \<and>
   (\<exists>ax. visualize_sample_masks world_clean [1, 0] [''data''] 6 =
      Inr \<lparr>vis_figure = Some ax, vis_return = Some 2\<rparr>)"
proof -
  have none: "glob_json world_no_match (masks_path [''data'']) = []"
    by (simp add: world_no_match_def glob_mk_world matches_json_def)
  have len: "length (glob_json world_clean (masks_path [''data''])) = 2"
    by (simp add: glob_clean)
  then have some: "glob_json world_clean (masks_path [''data'']) \<noteq> []" by auto
  from visualize_return_value [of world_no_match "[''data'']" "[]" 6] none
  have early: "visualize_sample_masks world_no_match [] [''data''] 6 =
     Inr \<lparr>vis_figure = None, vis_return = None\<rparr>"
    by simp
  from visualize_return_value [of world_clean "[''data'']" "[1, 0]" 6] some
  have "\<exists>ax. visualize_sample_masks world_clean [1, 0] [''data''] 6 =
      Inr \<lparr>vis_figure = Some ax, vis_return = Some 2\<rparr>"
    by (simp add: len)
  with none early some show ?thesis by (intro conjI)
qed

end
